theory Spec2Isabelle
  imports Complex_Main "HOL-Library.AList"
begin

section \<open>Python string and list primitives\<close>

text \<open>
  A Python \<open>str\<close> is modelled as a \<open>string\<close>, one \<open>char\<close> per code point; the model
  covers the code points below 256.  The character classes are those of Python 3 on that
  range: \<open>str.isspace\<close> holds of the code points 9-13, 28-32, 133 and 160, and
  \<open>str.isupper\<close> of 65-90, 192-214 and 216-222, each of which \<open>str.lower\<close> moves up by 32.
\<close>

datatype py_error = ZeroDivisionError | IndexError

definition py_isspace :: "char \<Rightarrow> bool" where
  "py_isspace c \<longleftrightarrow>
     (let n = (of_char c :: nat)
      in (9 \<le> n \<and> n \<le> 13) \<or> (28 \<le> n \<and> n \<le> 32) \<or> n = 133 \<or> n = 160)"

definition py_isupper :: "char \<Rightarrow> bool" where
  "py_isupper c \<longleftrightarrow>
     (let n = (of_char c :: nat)
      in (65 \<le> n \<and> n \<le> 90) \<or> (192 \<le> n \<and> n \<le> 222 \<and> n \<noteq> 215))"

definition py_lower_char :: "char \<Rightarrow> char" where
  "py_lower_char c = (if py_isupper c then char_of ((of_char c :: nat) + 32) else c)"

definition py_lower :: "string \<Rightarrow> string" where
  "py_lower s = map py_lower_char s"

definition py_lstrip :: "string \<Rightarrow> string" where
  "py_lstrip s = dropWhile py_isspace s"

definition py_rstrip :: "string \<Rightarrow> string" where
  "py_rstrip s = rev (dropWhile py_isspace (rev s))"

definition py_strip :: "string \<Rightarrow> string" where
  "py_strip s = py_lstrip (py_rstrip s)"

text \<open>\<open>s.split()\<close>: the maximal runs of non-whitespace characters, in order.  The first
  argument is the word being read.\<close>

fun py_split_from :: "string \<Rightarrow> string \<Rightarrow> string list" where
  "py_split_from w [] = (if w = [] then [] else [w])"
| "py_split_from w (c # cs) =
     (if py_isspace c then (if w = [] then py_split_from [] cs else w # py_split_from [] cs)
      else py_split_from (w @ [c]) cs)"

definition py_split :: "string \<Rightarrow> string list" where
  "py_split s = py_split_from [] s"

text \<open>\<open>' '.join(ws)\<close>.\<close>

fun py_join :: "string list \<Rightarrow> string" where
  "py_join [] = []"
| "py_join [w] = w"
| "py_join (w # v # ws) = w @ CHR '' '' # py_join (v # ws)"

text \<open>The slices \<open>xs[a:]\<close> and \<open>xs[:b]\<close> for any integer bound: a negative bound counts
  from the end, and the bound is then clamped to the list.\<close>

definition py_slice_bound :: "int \<Rightarrow> nat \<Rightarrow> nat" where
  "py_slice_bound a n = (if a < 0 then nat (max 0 (a + int n)) else min (nat a) n)"

definition py_slice_from :: "int \<Rightarrow> 'a list \<Rightarrow> 'a list" where
  "py_slice_from a xs = drop (py_slice_bound a (length xs)) xs"

definition py_slice_to :: "int \<Rightarrow> 'a list \<Rightarrow> 'a list" where
  "py_slice_to b xs = take (py_slice_bound b (length xs)) xs"

text \<open>\<open>s.replace(":", "")\<close>.\<close>

definition remove_colons :: "string \<Rightarrow> string" where
  "remove_colons s = filter (\<lambda>c. c \<noteq> CHR '':'') s"


section \<open>DatabaseHandler: the transcript cursor\<close>

text \<open>
  A transcript document.  Its \<open>uuid\<close> is the integer \<open>-1\<close> in the empty transcript
  (\<open>NoId\<close>) and the string \<open>str(uuid.uuid4())\<close> otherwise.
\<close>

datatype transcript_id = NoId | Uuid string

record transcript =
  text_str :: string
  timestamp :: rat
  is_final :: bool
  uuid :: transcript_id

text \<open>The fields of a user document that the transcript functions read or write.\<close>

record user =
  user_id :: string
  latest_intermediate_transcript :: transcript
  final_transcripts :: "transcript list"
  cse_consumed_transcript_id :: transcript_id
  cse_consumed_transcript_idx :: int

definition backslide :: int where
  "backslide = 4"

definition empty_transcript :: transcript where
  "empty_transcript = \<lparr>text_str = [], timestamp = - 1, is_final = False, uuid = NoId\<rparr>"

text \<open>The document \<open>create_user_if_not_exists\<close> inserts for an unknown user.\<close>

definition new_user :: "string \<Rightarrow> user" where
  "new_user uid =
     \<lparr>user_id = uid, latest_intermediate_transcript = empty_transcript,
      final_transcripts = [], cse_consumed_transcript_id = NoId,
      cse_consumed_transcript_idx = 0\<rparr>"

text \<open>
  \<open>find_closest_start_word_index\<close>: the loop over \<open>enumerate(text)\<close>, with the running
  index \<open>i\<close> and \<open>latest_stop_index\<close>.
\<close>

fun fcswi_loop :: "string \<Rightarrow> int \<Rightarrow> int \<Rightarrow> int \<Rightarrow> int" where
  "fcswi_loop [] i curr_index latest_stop_index = curr_index"
| "fcswi_loop (c # cs) i curr_index latest_stop_index =
     (if c = CHR '' '' then
        (if i > curr_index then latest_stop_index
         else fcswi_loop cs (i + 1) curr_index i)
      else fcswi_loop cs (i + 1) curr_index latest_stop_index)"

definition find_closest_start_word_index :: "string \<Rightarrow> int \<Rightarrow> int" where
  "find_closest_start_word_index s curr_index = fcswi_loop s 0 curr_index 0"

text \<open>
  \<open>save_transcript_for_user\<close> on the user's document; \<open>new_uuid\<close> is the fresh
  \<open>str(uuid.uuid4())\<close>.  (The purge it runs first only touches the \<open>transcripts\<close> field,
  which the cursor never reads.)
\<close>

definition save_transcript_for_user ::
  "user \<Rightarrow> string \<Rightarrow> rat \<Rightarrow> bool \<Rightarrow> string \<Rightarrow> user" where
  "save_transcript_for_user u s ts final new_uuid =
     (if s = [] then u
      else
        (let t = \<lparr>text_str = s, timestamp = ts, is_final = final, uuid = Uuid new_uuid\<rparr>
         in if final then
              (let u1 = u\<lparr>final_transcripts := final_transcripts u @ [t]\<rparr>;
                   u2 = u1\<lparr>latest_intermediate_transcript := empty_transcript\<rparr>
               in if cse_consumed_transcript_id u2 = NoId
                  then u2\<lparr>cse_consumed_transcript_id := uuid t\<rparr> else u2)
            else u\<lparr>latest_intermediate_transcript := t\<rparr>))"

text \<open>
  The backslide of both branches of \<open>get_new_cse_transcripts_for_user\<close>:
  \<open>previous_text_to_backslide.strip().split()\<close> and the slice
  \<open>[-(self.backslide - len(backslide_word_list)):]\<close>, joined by spaces.
\<close>

definition backslide_words :: "string \<Rightarrow> string" where
  "backslide_words previous_text_to_backslide =
     (let backslide_word_list = py_split (py_strip previous_text_to_backslide)
      in py_join (py_slice_from (- (backslide - int (length backslide_word_list)))
                    backslide_word_list))"

text \<open>
  One iteration of the loop over \<open>enumerate(user['final_transcripts'])\<close>.  The state is
  the list of final transcripts as it stands in memory (the loop rewrites the \<open>text\<close> of
  the transcript it matches), whether \<open>first_transcript\<close> is set, and
  \<open>unconsumed_transcripts\<close>.
\<close>

definition finals_step ::
  "transcript_id \<Rightarrow> int \<Rightarrow> nat \<Rightarrow> transcript list \<times> bool \<times> transcript list
     \<Rightarrow> transcript list \<times> bool \<times> transcript list" where
  "finals_step consumed_id consumed_idx index st =
     (case st of (finals, found, unconsumed_transcripts) \<Rightarrow>
        (let t = finals ! index in
         if uuid t = consumed_id then
           (let start_index = find_closest_start_word_index (text_str t) consumed_idx;
                most_recent_final_text =
                  (if index > 0 then text_str (finals ! (index - 1)) else []);
                previous_text_to_backslide =
                  most_recent_final_text @ '' '' @ py_slice_to start_index (text_str t);
                words_from_start = py_strip (py_slice_from start_index (text_str t));
                first_transcript =
                  t\<lparr>text_str :=
                      backslide_words previous_text_to_backslide @ '' '' @ words_from_start\<rparr>
            in (finals[index := first_transcript], True,
                if text_str first_transcript \<noteq> []
                then unconsumed_transcripts @ [first_transcript]
                else unconsumed_transcripts))
         else if found then (finals, found, unconsumed_transcripts @ [t])
         else (finals, found, unconsumed_transcripts)))"

text \<open>
  \<open>get_new_cse_transcripts_for_user\<close> on the user's document: the unconsumed transcripts
  it returns, and the document after the update of the two cursor fields.  The rewritten
  \<open>text\<close> fields live in the fetched copy only and are not written back.
\<close>

definition get_new_cse_transcripts_for_user :: "user \<Rightarrow> transcript list \<times> user" where
  "get_new_cse_transcripts_for_user u =
     (let (unconsumed_transcripts, index_offset) =
        (if cse_consumed_transcript_id u \<noteq> NoId then
           (case fold (finals_step (cse_consumed_transcript_id u)
                         (cse_consumed_transcript_idx u))
                   [0..<length (final_transcripts u)]
                   (final_transcripts u, False, []) of
              (finals, found, unconsumed) \<Rightarrow>
                (if text_str (latest_intermediate_transcript u) \<noteq> []
                 then unconsumed @ [latest_intermediate_transcript u]
                 else unconsumed, 0))
         else
           (let t = latest_intermediate_transcript u;
                start_index =
                  find_closest_start_word_index (text_str t) (cse_consumed_transcript_idx u)
            in if int (length (text_str t)) - 1 > start_index then
                 (let most_recent_final_text =
                        (if length (final_transcripts u) > 0
                         then text_str (last (final_transcripts u)) else []);
                      previous_text_to_backslide =
                        most_recent_final_text @ '' '' @ py_slice_to start_index (text_str t);
                      words_from_start = py_strip (py_slice_from start_index (text_str t))
                  in ([t\<lparr>text_str :=
                           backslide_words previous_text_to_backslide @ '' '' @
                           words_from_start\<rparr>],
                      start_index))
               else ([], start_index)));
          new_index =
            (if length unconsumed_transcripts > 0
             then int (length (text_str (last unconsumed_transcripts))) + index_offset
             else 0)
      in (unconsumed_transcripts,
          u\<lparr>cse_consumed_transcript_id := NoId, cse_consumed_transcript_idx := new_index\<rparr>))"

text \<open>\<open>get_new_cse_transcripts_for_user_as_string\<close>.\<close>

definition get_new_cse_transcripts_for_user_as_string :: "user \<Rightarrow> string \<times> user" where
  "get_new_cse_transcripts_for_user_as_string u =
     (case get_new_cse_transcripts_for_user u of
        (transcripts, u') \<Rightarrow>
          (py_strip (fold (\<lambda>t the_string. the_string @ text_str t @ '' '') transcripts []), u'))"


text \<open>
  The snap in the words of its contract: \<open>r\<close> is the position of the nearest space at or
  before position \<open>k\<close> of \<open>s\<close>, or 0 when there is no such space.
\<close>

definition snapped :: "string \<Rightarrow> int \<Rightarrow> int \<Rightarrow> bool" where
  "snapped s k r \<longleftrightarrow>
     (r = 0 \<and> (\<forall>j<length s. int j \<le> k \<longrightarrow> s ! j \<noteq> CHR '' ''))
   \<or> (0 \<le> r \<and> r \<le> k \<and> nat r < length s \<and> s ! nat r = CHR '' '' \<and>
        (\<forall>j<length s. r < int j \<and> int j \<le> k \<longrightarrow> s ! j \<noteq> CHR '' ''))"

text \<open>
  A text as a speech recogniser writes it: no two adjacent whitespace characters and no
  whitespace at the end.
\<close>

fun single_spaced :: "string \<Rightarrow> bool" where
  "single_spaced [] \<longleftrightarrow> True"
| "single_spaced [a] \<longleftrightarrow> \<not> py_isspace a"
| "single_spaced (a # b # cs) \<longleftrightarrow> \<not> (py_isspace a \<and> py_isspace b) \<and> single_spaced (b # cs)"


section \<open>word\_frequency: the frequency oracle\<close>

text \<open>
  A loaded index (\<open>idx_google_dict_word_freq\<close>, \<open>idx_norvig_dict_word_freq\<close>) maps a word
  to the row numbers of its lines; \<open>groupby\<close> never yields an empty group, so the model
  keeps the first row number, which is all \<open>idx[word][0]\<close> reads.  A missing key is the
  \<open>KeyError\<close> the code catches.
\<close>

type_synonym word_index = "string \<rightharpoonup> int"

definition low_freq_threshold_google :: rat where
  "low_freq_threshold_google = 922 / 10000"

definition low_freq_threshold_norvig :: rat where
  "low_freq_threshold_norvig = 901 / 1000"

definition google_lines :: rat where
  "google_lines = 333334"

definition norvig_lines :: rat where
  "norvig_lines = 30000"

definition low_freq_constant_google :: rat where
  "low_freq_constant_google = low_freq_threshold_google * google_lines"

definition low_freq_line_constant_norvig :: rat where
  "low_freq_line_constant_norvig = low_freq_threshold_norvig * norvig_lines"

fun find_low_freq_words :: "word_index \<Rightarrow> word_index \<Rightarrow> string list \<Rightarrow> string list" where
  "find_low_freq_words idx_google idx_norvig [] = []"
| "find_low_freq_words idx_google idx_norvig (w # words) =
     (let word = py_lower w;
          low_freq_words = find_low_freq_words idx_google idx_norvig words
      in case idx_google word of
           None \<Rightarrow> word # low_freq_words
         | Some i_word_google \<Rightarrow>
             (let i_word_norvig = idx_norvig word
              in if of_int i_word_google > low_freq_constant_google
                 then word # low_freq_words
                 else (case i_word_norvig of
                         Some i \<Rightarrow>
                           if of_int i > low_freq_line_constant_norvig
                           then word # low_freq_words else low_freq_words
                       | None \<Rightarrow> low_freq_words)))"


section \<open>ContextualSearchEngine: the fuzzy entity matcher\<close>

subsection \<open>Window generation\<close>

text \<open>\<open>find_combinations\<close>: the two nested \<open>range\<close> loops adding to \<open>combinations_set\<close>.\<close>

definition find_combinations :: "string list \<Rightarrow> int \<Rightarrow> string set" where
  "find_combinations words window_size =
     fold (\<lambda>window_size combinations_set.
             fold (\<lambda>i combinations_set.
                     (let combination =
                            py_join (take (nat window_size) (drop (nat i) words))
                      in if combination \<notin> combinations_set
                         then insert combination combinations_set
                         else combinations_set))
                  [0 .. int (length words) - window_size] combinations_set)
          [2 .. window_size] {}"

text \<open>
  The window generator in the words of its contract: every space-joined contiguous run
  of 2 to \<open>max_size\<close> consecutive words.
\<close>

definition windows_spec :: "string list \<Rightarrow> int \<Rightarrow> string set" where
  "windows_spec words max_size =
     {py_join run | run before after.
        words = before @ run @ after \<and> 2 \<le> length run \<and> int (length run) \<le> max_size}"

subsection \<open>Phrase rarity\<close>

text \<open>
  \<open>word_frequency.get_word_freq_index\<close> is not part of the sources; it is a parameter
  \<open>get_word_freq_index\<close> of the functions that call it.  Frequencies are exact rationals.
  \<open>get_string_freq\<close> is \<open>np.mean\<close> of the word frequencies, which is \<open>nan\<close> (here \<open>None\<close>)
  for a text without words; every comparison with \<open>nan\<close> is false.
\<close>

definition get_string_freq :: "(string \<Rightarrow> rat) \<Rightarrow> string \<Rightarrow> rat option" where
  "get_string_freq get_word_freq_index s =
     (let freq_indexes = map get_word_freq_index (py_split s)
      in if freq_indexes = [] then None
         else Some (sum_list freq_indexes / of_nat (length freq_indexes)))"

definition nan_less :: "rat option \<Rightarrow> rat \<Rightarrow> bool" where
  "nan_less x y = (case x of None \<Rightarrow> False | Some v \<Rightarrow> v < y)"

subsection \<open>Title normalisation\<close>

definition is_ascii_upper :: "char \<Rightarrow> bool" where
  "is_ascii_upper c \<longleftrightarrow> 65 \<le> (of_char c :: nat) \<and> (of_char c :: nat) \<le> 90"

definition is_ascii_lower :: "char \<Rightarrow> bool" where
  "is_ascii_lower c \<longleftrightarrow> 97 \<le> (of_char c :: nat) \<and> (of_char c :: nat) \<le> 122"

text \<open>
  \<open>re.findall(r'[A-Z]?[a-z]+|[A-Z]+(?=[A-Z]|$)', pascal_str)\<close>, scanning from the left.
  At a lower-case letter the first alternative takes the whole lower-case run; at an
  upper-case letter followed by a lower-case one it takes that letter and the run.
  Otherwise the second alternative takes the run of upper-case letters if the string ends
  there (or only a final newline follows), and the run without its last letter if that
  leaves a letter; with no match the scan moves on by one character.
\<close>

function pascal_findall :: "string \<Rightarrow> string list" where
  "pascal_findall [] = []"
| "pascal_findall (c # cs) =
     (if is_ascii_lower c then
        (c # takeWhile is_ascii_lower cs) # pascal_findall (dropWhile is_ascii_lower cs)
      else if is_ascii_upper c then
        (if cs \<noteq> [] \<and> is_ascii_lower (hd cs) then
           (c # takeWhile is_ascii_lower cs) # pascal_findall (dropWhile is_ascii_lower cs)
         else if dropWhile is_ascii_upper cs = [] \<or> dropWhile is_ascii_upper cs = [CHR 0x0A]
           then (c # takeWhile is_ascii_upper cs) # pascal_findall (dropWhile is_ascii_upper cs)
         else if takeWhile is_ascii_upper cs \<noteq> [] then
           (c # butlast (takeWhile is_ascii_upper cs)) #
           pascal_findall (last (takeWhile is_ascii_upper cs) # dropWhile is_ascii_upper cs)
         else pascal_findall cs)
      else pascal_findall cs)"
  by pat_completeness auto
termination
proof -
  have shorter: "length (dropWhile P xs) < length xs" if "takeWhile P xs \<noteq> []"
    for P :: "char \<Rightarrow> bool" and xs
    using that by (induction xs) (auto simp: less_Suc_eq_le length_dropWhile_le split: if_splits)
  show ?thesis
    by (relation "measure length")
       (auto simp: length_dropWhile_le less_Suc_eq_le Suc_le_eq dest: shorter)
qed

declare pascal_findall.simps [simp del]

definition pascal_to_words :: "string \<Rightarrow> string" where
  "pascal_to_words pascal_str = py_join (pascal_findall pascal_str)"

text \<open>\<open>searched_entity = pascal_to_words(entity).lower().replace(":", "")\<close>.\<close>

definition searched_entity_of :: "string \<Rightarrow> string" where
  "searched_entity_of entity = remove_colons (py_lower (pascal_to_words entity))"

subsection \<open>The per-match filters\<close>

text \<open>
  A \<open>Match\<close> of the \<open>fuzzysearch\<close> library: the span \<open>[start, end)\<close> of the searched
  text and its edit distance.  \<open>find_near_matches\<close> itself is the library's and is a
  parameter, called with the query, the text and the four bounds of the configuration.
\<close>

record fs_match =
  m_start :: nat
  m_end :: nat
  m_dist :: nat

record config =
  max_deletions :: nat
  max_insertions :: nat
  max_substitutions :: nat
  max_l_dist :: nat

type_synonym near_matcher = "string \<Rightarrow> string \<Rightarrow> nat \<Rightarrow> nat \<Rightarrow> nat \<Rightarrow> nat \<Rightarrow> fs_match list"

definition is_separator :: "char \<Rightarrow> bool" where
  "is_separator c \<longleftrightarrow>
     c \<in> set [CHR '' '', CHR 0x0A, CHR 0x0D, CHR '','', CHR '':'', CHR '';'']"

text \<open>The first loop of \<open>get_whole_match\<close>; reading past the end of the string raises.\<close>

fun whole_match_left :: "string \<Rightarrow> nat \<Rightarrow> string \<Rightarrow> py_error + string" where
  "whole_match_left full_string 0 substring = Inr substring"
| "whole_match_left full_string (Suc start_idx) substring =
     (if start_idx < length full_string then
        (let pre_char = full_string ! start_idx
         in if \<not> is_separator pre_char
            then whole_match_left full_string start_idx (pre_char # substring)
            else Inr substring)
      else Inl IndexError)"

text \<open>The second loop of \<open>get_whole_match\<close>.\<close>

function whole_match_right :: "string \<Rightarrow> nat \<Rightarrow> string \<Rightarrow> string" where
  "whole_match_right full_string end_idx substring =
     (if end_idx < length full_string then
        (let post_char = full_string ! end_idx
         in if \<not> is_separator post_char
            then whole_match_right full_string (Suc end_idx) (substring @ [post_char])
            else substring)
      else substring)"
  by pat_completeness auto
termination
  by (relation "measure (\<lambda>(full_string, end_idx, substring). length full_string - end_idx)")
     auto

declare whole_match_right.simps [simp del]

definition get_whole_match :: "fs_match \<Rightarrow> string \<Rightarrow> py_error + string" where
  "get_whole_match match_entity full_string =
     (let start_idx = m_start match_entity;
          end_idx = m_end match_entity;
          substring = take (end_idx - start_idx) (drop start_idx full_string)
      in case whole_match_left full_string start_idx substring of
           Inl e \<Rightarrow> Inl e
         | Inr substring \<Rightarrow> Inr (whole_match_right full_string end_idx substring))"

definition count_capitals :: "string \<Rightarrow> nat" where
  "count_capitals s = length (filter py_isupper s)"

text \<open>
  The body of the loop over \<open>match_entities\<close>: \<open>Inr True\<close> when the match reaches
  \<open>matches.append(idx)\<close>, \<open>Inr False\<close> when one of the filters skips it.
\<close>

definition match_passes_filters ::
  "(string \<Rightarrow> rat) \<Rightarrow> string \<Rightarrow> string \<Rightarrow> fs_match \<Rightarrow> py_error + bool" where
  "match_passes_filters get_word_freq_index to_search searched_entity match_entity =
     (case get_whole_match match_entity searched_entity of
        Inl e \<Rightarrow> Inl e
      | Inr whole_match \<Rightarrow>
          (let match_distance = \<bar>int (length whole_match) - int (length to_search)\<bar>
           in if match_distance \<ge> 2 then Inr False
              else
                (let string_freq_index =
                       get_string_freq get_word_freq_index (remove_colons whole_match)
                 in if m_dist match_entity > 1 \<and> nan_less string_freq_index (6 / 100)
                    then Inr False
                    else if CHR '' '' \<notin> set whole_match \<and> count_capitals whole_match < 2
                    then Inr False
                    else if m_start match_entity \<noteq> 0 then
                      (if m_start match_entity - 1 < length searched_entity then
                         (if searched_entity ! (m_start match_entity - 1) \<noteq> CHR '' ''
                          then Inr False else Inr True)
                       else Inl IndexError)
                    else Inr True)))"

text \<open>The start-of-word anchor in the words of its contract: the match begins at
  position 0 of the text or right after a space.\<close>

definition at_word_start :: "string \<Rightarrow> fs_match \<Rightarrow> bool" where
  "at_word_start s m \<longleftrightarrow>
     m_start m = 0 \<or> (m_start m - 1 < length s \<and> s ! (m_start m - 1) = CHR '' '')"

fun scan_matches ::
  "(string \<Rightarrow> rat) \<Rightarrow> string \<Rightarrow> string \<Rightarrow> nat \<Rightarrow> fs_match list \<Rightarrow> py_error + nat list" where
  "scan_matches get_word_freq_index to_search searched_entity idx [] = Inr []"
| "scan_matches get_word_freq_index to_search searched_entity idx (match_entity # rest) =
     (case match_passes_filters get_word_freq_index to_search searched_entity match_entity of
        Inl e \<Rightarrow> Inl e
      | Inr accepted \<Rightarrow>
          (case scan_matches get_word_freq_index to_search searched_entity idx rest of
             Inl e \<Rightarrow> Inl e
           | Inr matches \<Rightarrow> Inr (if accepted then idx # matches else matches)))"

text \<open>The loop over \<open>entities\<close>, the enumerated titles.\<close>

fun scan_entities ::
  "near_matcher \<Rightarrow> (string \<Rightarrow> rat) \<Rightarrow> config \<Rightarrow> string \<Rightarrow> (nat \<times> string) list
     \<Rightarrow> py_error + nat list" where
  "scan_entities find_near_matches get_word_freq_index cfg to_search [] = Inr []"
| "scan_entities find_near_matches get_word_freq_index cfg to_search ((idx, entity) # rest) =
     (let searched_entity = searched_entity_of entity;
          match_entities =
            find_near_matches (py_lower to_search) searched_entity
              (max_deletions cfg) (max_insertions cfg) (max_substitutions cfg) (max_l_dist cfg)
      in case scan_matches get_word_freq_index to_search searched_entity idx match_entities of
           Inl e \<Rightarrow> Inl e
         | Inr here \<Rightarrow>
             (case scan_entities find_near_matches get_word_freq_index cfg to_search rest of
                Inl e \<Rightarrow> Inl e
              | Inr matches \<Rightarrow> Inr (here @ matches)))"

subsection \<open>custom\_fuzzy\_search\<close>

definition custom_fuzzy_search ::
  "string set \<Rightarrow> near_matcher \<Rightarrow> (string \<Rightarrow> rat) \<Rightarrow> string \<Rightarrow> (nat \<times> string) list \<Rightarrow> config
     \<Rightarrow> py_error + nat list" where
  "custom_fuzzy_search banned_words find_near_matches get_word_freq_index to_search entities cfg =
     (if length to_search < 8 then Inr []
      else
        (let individual_words = py_split to_search;
             num_banned = length (filter (\<lambda>word. word \<in> banned_words) individual_words)
         in if individual_words = [] then Inl ZeroDivisionError
            else if (of_nat num_banned / of_nat (length individual_words) :: rat) \<ge> 4 / 10
            then Inr []
            else if nan_less (get_string_freq get_word_freq_index to_search) (4 / 100)
            then Inr []
            else scan_entities find_near_matches get_word_freq_index cfg to_search entities))"


subsection \<open>fuzzy\_search\_on\_user\_custom\_data\<close>

text \<open>
  A user's loaded catalog: the rows of the data frame (a \<open>nan\<close> cell is \<open>None\<close>) and
  whether the optional columns exist.  \<open>custom_data[user_id]\<close> is a data frame, or the
  empty \<open>dict()\<close> that \<open>load_custom_user_data\<close> stores when the user has no file.
\<close>

record row =
  title :: string
  description :: "string option"
  url :: "string option"
  image_url :: "string option"

record dataframe =
  rows :: "row list"
  has_url_column :: bool
  has_image_url_column :: bool

datatype custom_data_value = EmptyDict | DataFrame dataframe

text \<open>One value of the response object \<open>matches\<close>.\<close>

record entity =
  name :: string
  summary :: "string option"
  res_image_url :: "string option"
  res_url :: "string option"

text \<open>
  A Python \<open>dict\<close> keyed by title is an association list with distinct keys in insertion
  order: \<open>d[k] = v\<close> is \<open>AList.update\<close>, \<open>d.pop(k)\<close> is \<open>AList.delete\<close>, \<open>len(d)\<close> is
  the length and \<open>list(d.keys())\<close> is \<open>map fst\<close>.
\<close>

type_synonym matches_dict = "(string \<times> entity) list"

definition max_window_size :: int where
  "max_window_size = 3"

definition unreasonable_num :: nat where
  "unreasonable_num = 4"

definition fuzzy_config :: config where
  "fuzzy_config =
     \<lparr>max_deletions = 1, max_insertions = 1, max_substitutions = 2, max_l_dist = 3\<rparr>"

definition does_user_have_custom_data_loaded ::
  "(string \<rightharpoonup> custom_data_value) \<Rightarrow> string \<Rightarrow> bool" where
  "does_user_have_custom_data_loaded custom_data uid =
     (case custom_data uid of
        None \<Rightarrow> False
      | Some EmptyDict \<Rightarrow> False
      | Some (DataFrame df) \<Rightarrow> rows df \<noteq> [])"

text \<open>The loop running every combination through \<open>custom_fuzzy_search\<close>.\<close>

fun search_combinations ::
  "string set \<Rightarrow> near_matcher \<Rightarrow> (string \<Rightarrow> rat) \<Rightarrow> (nat \<times> string) list \<Rightarrow> config
     \<Rightarrow> string list \<Rightarrow> py_error + nat list" where
  "search_combinations banned_words find_near_matches get_word_freq_index entities cfg [] = Inr []"
| "search_combinations banned_words find_near_matches get_word_freq_index entities cfg
     (combination # rest) =
     (case custom_fuzzy_search banned_words find_near_matches get_word_freq_index
             combination entities cfg of
        Inl e \<Rightarrow> Inl e
      | Inr curr_matches \<Rightarrow>
          (case search_combinations banned_words find_near_matches get_word_freq_index
                  entities cfg rest of
             Inl e \<Rightarrow> Inl e
           | Inr matches_idxs \<Rightarrow> Inr (curr_matches @ matches_idxs)))"

text \<open>The loop building the response object from \<open>matches_idxs\<close>.\<close>

definition entity_of_row :: "dataframe \<Rightarrow> nat \<Rightarrow> entity" where
  "entity_of_row df mi =
     \<lparr>name = title (rows df ! mi),
      summary = description (rows df ! mi),
      res_image_url = (if has_image_url_column df then image_url (rows df ! mi) else None),
      res_url = (if has_url_column df then url (rows df ! mi) else None)\<rparr>"

definition build_matches :: "dataframe \<Rightarrow> nat list \<Rightarrow> matches_dict" where
  "build_matches df matches_idxs =
     fold (\<lambda>mi matches. AList.update (title (rows df ! mi)) (entity_of_row df mi) matches)
          matches_idxs []"

text \<open>
  \<open>random.choice(seq)\<close> is \<open>seq[randbelow(len(seq))]\<close>.  The random source is the
  sequence \<open>rnd\<close> of raw draws, the \<open>n\<close>-th call reading \<open>rnd n\<close> and reducing it to an
  index of \<open>seq\<close>.
\<close>

definition random_choice :: "nat \<Rightarrow> 'a list \<Rightarrow> 'a" where
  "random_choice r xs = xs ! (r mod length xs)"

function remove_random_false_positives ::
  "(nat \<Rightarrow> nat) \<Rightarrow> nat \<Rightarrow> matches_dict \<Rightarrow> nat \<Rightarrow> matches_dict" where
  "remove_random_false_positives rnd n d max_keys =
     (if length d > max_keys
      then remove_random_false_positives rnd (Suc n)
             (AList.delete (random_choice (rnd n) (map fst d)) d) max_keys
      else d)"
  by pat_completeness auto
termination
proof (relation "measure (\<lambda>(rnd, n, d, max_keys). length d)", goal_cases)
  case 1
  show ?case by simp
next
  case (2 rnd n d max_keys)
  then have "d \<noteq> []" by auto
  then have i: "rnd n mod length d < length d" by simp
  have "length (filter (\<lambda>(k', _). random_choice (rnd n) (map fst d) \<noteq> k') d) < length d"
    using i by (intro length_filter_less[of "d ! (rnd n mod length d)"])
               (auto simp: random_choice_def split: prod.splits)
  then show ?case by (simp add: AList.delete_eq)
qed

declare remove_random_false_positives.simps [simp del]

text \<open>
  \<open>fuzzy_search_on_user_custom_data\<close>.  Besides the parameters named above it takes
  \<open>set_order\<close>, the order in which the interpreter iterates over the set of combinations,
  and the random source \<open>rnd\<close>.
\<close>

definition fuzzy_search_on_user_custom_data ::
  "(string \<rightharpoonup> custom_data_value) \<Rightarrow> string set \<Rightarrow> near_matcher \<Rightarrow> (string \<Rightarrow> rat)
     \<Rightarrow> (string set \<Rightarrow> string list) \<Rightarrow> (nat \<Rightarrow> nat) \<Rightarrow> string \<Rightarrow> string
     \<Rightarrow> py_error + matches_dict" where
  "fuzzy_search_on_user_custom_data custom_data banned_words find_near_matches
       get_word_freq_index set_order rnd uid talk =
     (if \<not> does_user_have_custom_data_loaded custom_data uid then Inr []
      else
        (case custom_data uid of
           Some (DataFrame df) \<Rightarrow>
             (let words = py_split talk;
                  entity_names_to_match_filtered = map title (rows df);
                  word_combos = find_combinations words max_window_size
              in case search_combinations banned_words find_near_matches get_word_freq_index
                        (enumerate 0 entity_names_to_match_filtered) fuzzy_config
                        (set_order word_combos) of
                   Inl e \<Rightarrow> Inl e
                 | Inr matches_idxs \<Rightarrow>
                     Inr (remove_random_false_positives rnd 0
                            (build_matches df matches_idxs) unreasonable_num))
         | _ \<Rightarrow> Inr []))"

text \<open>
  For running the matcher on examples: the spans where the query occurs verbatim, which
  are the distance-0 matches \<open>find_near_matches\<close> reports.
\<close>

fun exact_matches_from :: "nat \<Rightarrow> string \<Rightarrow> string \<Rightarrow> fs_match list" where
  "exact_matches_from i q [] = []"
| "exact_matches_from i q (c # cs) =
     (if q \<noteq> [] \<and> take (length q) (c # cs) = q
      then \<lparr>m_start = i, m_end = i + length q, m_dist = 0\<rparr> # exact_matches_from (Suc i) q cs
      else exact_matches_from (Suc i) q cs)"

definition exact_matcher :: near_matcher where
  "exact_matcher q s max_del max_ins max_subst max_l = exact_matches_from 0 q s"


text \<open>
  The dictionary \<open>matches\<close> as it stands when \<open>remove_random_false_positives\<close> is
  called; empty when the function has returned before.
\<close>

definition matches_before_cap ::
  "(string \<rightharpoonup> custom_data_value) \<Rightarrow> string set \<Rightarrow> near_matcher \<Rightarrow> (string \<Rightarrow> rat)
     \<Rightarrow> (string set \<Rightarrow> string list) \<Rightarrow> string \<Rightarrow> string \<Rightarrow> py_error + matches_dict" where
  "matches_before_cap custom_data banned_words find_near_matches get_word_freq_index
       set_order uid talk =
     (case custom_data uid of
        Some (DataFrame df) \<Rightarrow>
          (if rows df = [] then Inr []
           else
             (case search_combinations banned_words find_near_matches get_word_freq_index
                     (enumerate 0 (map title (rows df))) fuzzy_config
                     (set_order (find_combinations (py_split talk) max_window_size)) of
                Inl e \<Rightarrow> Inl e
              | Inr matches_idxs \<Rightarrow> Inr (build_matches df matches_idxs)))
      | _ \<Rightarrow> Inr [])"

subsection \<open>Example inputs\<close>

text \<open>A frequency oracle that rates every word as maximally rare.\<close>

definition unit_freq :: "string \<Rightarrow> rat" where
  "unit_freq w = 1"

text \<open>Two random sources: one always draws 0, the other always 1.\<close>

definition draws_zero :: "nat \<Rightarrow> nat" where
  "draws_zero n = 0"

definition draws_one :: "nat \<Rightarrow> nat" where
  "draws_one n = 1"

text \<open>A frequency oracle that rates every word as maximally common.\<close>

definition common_freq :: "string \<Rightarrow> rat" where
  "common_freq w = 0"

text \<open>
  Two catalogs for the user \<open>u\<close>, of five and of two titles that all begin with
  "Blue Moon", and what the user says.  The text has a single window, so a set of its
  windows is iterated in one way only.
\<close>

definition title_row :: "string \<Rightarrow> row" where
  "title_row t = \<lparr>title = t, description = None, url = None, image_url = None\<rparr>"

definition title_entity :: "string \<Rightarrow> string \<times> entity" where
  "title_entity t = (t, \<lparr>name = t, summary = None, res_image_url = None, res_url = None\<rparr>)"

definition catalog_of :: "string list \<Rightarrow> string \<rightharpoonup> custom_data_value" where
  "catalog_of titles =
     [''u'' \<mapsto> DataFrame \<lparr>rows = map title_row titles,
                            has_url_column = False, has_image_url_column = False\<rparr>]"

definition five_moons :: "string list" where
  "five_moons =
     [''Blue Moon'', ''Blue Moon Cafe'', ''Blue Moon Bar'', ''Blue Moon Inn'', ''Blue Moon Pub'']"

definition two_moons :: "string list" where
  "two_moons = [''Blue Moon'', ''Blue Moon Cafe'']"

definition moon_talk :: string where
  "moon_talk = ''blue moon''"

definition moon_order :: "string set \<Rightarrow> string list" where
  "moon_order S = filter (\<lambda>w. w \<in> S) [''blue moon'']"

text \<open>A small frequency index: "the" on the first line, "habitual" far down.\<close>

definition toy_index :: word_index where
  "toy_index = [''the'' \<mapsto> 0, ''habitual'' \<mapsto> 40000]"

text \<open>
  Users after a few calls.  \<open>hello_user\<close> has one pending intermediate transcript;
  \<open>fox_final_user\<close> one final transcript, not yet consumed; \<open>fox_user\<close> has consumed
  that final transcript and then received an intermediate one.  \<open>gamma_user\<close> has
  consumed a final transcript of three words, polled once more and then received an
  intermediate transcript.  \<open>shrunk_user\<close> has consumed an intermediate transcript that
  was then replaced by a shorter one.  The pending intermediate transcript of
  \<open>spaces_user\<close> ends in five spaces.
\<close>

definition hello_user :: user where
  "hello_user = save_transcript_for_user (new_user ''u'') ''hello world'' 1000 False ''i1''"

definition fox_final_user :: user where
  "fox_final_user =
     save_transcript_for_user (new_user ''u'') ''the quick brown fox'' 1000 True ''f1''"

definition fox_user :: user where
  "fox_user =
     save_transcript_for_user (snd (get_new_cse_transcripts_for_user fox_final_user))
       ''jumps over the lazy dog'' 1001 False ''i1''"

definition gamma_user :: user where
  "gamma_user =
     save_transcript_for_user
       (snd (get_new_cse_transcripts_for_user
          (snd (get_new_cse_transcripts_for_user
             (save_transcript_for_user (new_user ''u'') ''alpha beta gamma'' 1000 True ''f1'')))))
       ''delta epsilon'' 1001 False ''i1''"

definition spaces_user :: user where
  "spaces_user = save_transcript_for_user (new_user ''u'') ''a     '' 1000 False ''i1''"

definition shrunk_user :: user where
  "shrunk_user =
     save_transcript_for_user
       (snd (get_new_cse_transcripts_for_user
          (save_transcript_for_user (new_user ''u'')
             ''tell me about the weather in boston today'' 1000 False ''i1'')))
       ''new words'' 1001 False ''i2''"


section \<open>Properties of the transcript cursor\<close>

subsection \<open>The word-boundary snap\<close>

lemma fcswi_loop_le:
  "latest \<le> k \<Longrightarrow> fcswi_loop cs i k latest \<le> k"
  by (induction cs arbitrary: i latest) auto

lemma fcswi_loop_nonneg:
  "0 \<le> latest \<Longrightarrow> 0 \<le> k \<Longrightarrow> 0 \<le> i \<Longrightarrow> 0 \<le> fcswi_loop cs i k latest"
  by (induction cs arbitrary: i latest) auto

lemma fcswi_loop_no_later:
  "(\<forall>j<length cs. cs ! j = CHR '' '' \<longrightarrow> i + int j \<le> k) \<Longrightarrow> fcswi_loop cs i k latest = k"
proof (induction cs arbitrary: i latest)
  case Nil
  then show ?case by simp
next
  case (Cons c cs)
  have tl: "\<forall>j<length cs. cs ! j = CHR '' '' \<longrightarrow> (i + 1) + int j \<le> k"
  proof (intro allI impI)
    fix j assume "j < length cs" "cs ! j = CHR '' ''"
    with Cons.prems[rule_format, of "Suc j"] show "(i + 1) + int j \<le> k" by simp
  qed
  have hd: "c = CHR '' '' \<Longrightarrow> i \<le> k"
    using Cons.prems[rule_format, of 0] by simp
  show ?case using Cons.IH[OF tl] hd by auto
qed

lemma snapped_snoc_space:
  "snapped (pre @ [CHR '' '']) (int (length pre) + 1) (int (length pre))"
  unfolding snapped_def by (auto simp: nth_append)

lemma snapped_snoc_other:
  assumes "snapped pre (int (length pre)) latest" "c \<noteq> CHR '' ''"
  shows "snapped (pre @ [c]) (int (length pre) + 1) latest"
  using assms unfolding snapped_def by (auto simp: nth_append less_Suc_eq)

lemma snapped_stop:
  assumes "snapped pre (int (length pre)) latest"
    and "\<forall>j<length pre. pre ! j = CHR '' '' \<longrightarrow> int j \<le> k"
    and "k < int (length pre)"
  shows "snapped (pre @ cs) k latest"
  using assms unfolding snapped_def
  apply (elim disjE conjE)
   apply (rule disjI1)
   apply (auto simp: nth_append)[1]
  apply (rule disjI2)
  apply (auto simp: nth_append)
  done

text \<open>The loop invariant: \<open>latest\<close> is the last space of the part read so far, all of
  whose spaces lie at or before \<open>k\<close>.\<close>

lemma fcswi_loop_snap:
  assumes "\<exists>j<length cs. cs ! j = CHR '' '' \<and> k < int (length pre + j)"
    and "\<forall>j<length pre. pre ! j = CHR '' '' \<longrightarrow> int j \<le> k"
    and "snapped pre (int (length pre)) latest"
  shows "snapped (pre @ cs) k (fcswi_loop cs (int (length pre)) k latest)"
  using assms
proof (induction cs arbitrary: pre latest)
  case Nil
  then show ?case by simp
next
  case (Cons c cs)
  let ?i = "int (length pre)"
  show ?case
  proof (cases "c = CHR '' '' \<and> ?i > k")
    case True
    then have "fcswi_loop (c # cs) ?i k latest = latest" by simp
    moreover have "snapped (pre @ c # cs) k latest"
      using snapped_stop[OF Cons.prems(3) Cons.prems(2)] True by simp
    ultimately show ?thesis by simp
  next
    case False
    obtain j where j: "j < length (c # cs)" "(c # cs) ! j = CHR '' ''" "k < int (length pre + j)"
      using Cons.prems(1) by blast
    from False j have "j \<noteq> 0" by (cases j) auto
    then obtain j' where j': "j = Suc j'" by (cases j) auto
    have p1: "\<exists>j<length cs. cs ! j = CHR '' '' \<and> k < int (length (pre @ [c]) + j)"
      using j j' by (intro exI[of _ j']) auto
    show ?thesis
    proof (cases "c = CHR '' ''")
      case True
      with False have le: "?i \<le> k" by simp
      have p2: "\<forall>j<length (pre @ [c]). (pre @ [c]) ! j = CHR '' '' \<longrightarrow> int j \<le> k"
        using Cons.prems(2) le by (auto simp: nth_append less_Suc_eq)
      have p3: "snapped (pre @ [c]) (int (length (pre @ [c]))) ?i"
        using snapped_snoc_space[of pre] True by (simp add: add.commute)
      have "fcswi_loop (c # cs) ?i k latest = fcswi_loop cs (int (length (pre @ [c]))) k ?i"
        using True le by (simp add: add.commute)
      with Cons.IH[OF p1 p2 p3] show ?thesis by simp
    next
      case c: False
      have p2: "\<forall>j<length (pre @ [c]). (pre @ [c]) ! j = CHR '' '' \<longrightarrow> int j \<le> k"
        using Cons.prems(2) c by (auto simp: nth_append less_Suc_eq)
      have p3: "snapped (pre @ [c]) (int (length (pre @ [c]))) latest"
        using snapped_snoc_other[OF Cons.prems(3) c] by (simp add: add.commute)
      have "fcswi_loop (c # cs) ?i k latest = fcswi_loop cs (int (length (pre @ [c]))) k latest"
        using c by (simp add: add.commute)
      with Cons.IH[OF p1 p2 p3] show ?thesis by simp
    qed
  qed
qed

lemma snapped_nil: "snapped [] 0 0"
  by (simp add: snapped_def)

lemma find_closest_start_word_index_at_end:
  "int (length s) - 1 \<le> k \<Longrightarrow> find_closest_start_word_index s k = k"
  unfolding find_closest_start_word_index_def
  by (intro fcswi_loop_no_later) auto

lemma find_closest_start_word_index_nonneg:
  "0 \<le> k \<Longrightarrow> 0 \<le> find_closest_start_word_index s k"
  unfolding find_closest_start_word_index_def by (simp add: fcswi_loop_nonneg)

text \<open>
  C3, as the claim states it, fails: on \<open>hello world\<close> with target index 11 (the end of
  the text) the snap returns 11, which is not the position of a space (the nearest
  preceding space is at 5).
\<close>

theorem find_closest_start_word_index_end_unsnapped:
  "find_closest_start_word_index ''hello world'' 11 = 11
   \<and> \<not> snapped ''hello world'' 11 (find_closest_start_word_index ''hello world'' 11)"
  by (simp add: find_closest_start_word_index_def snapped_def)

text \<open>
  A target inside the last word of the text is returned unchanged as well, and is then a
  position inside a word.
\<close>

lemma find_closest_start_word_index_inside_last_word:
  "find_closest_start_word_index ''hello world'' 8 = 8"
  by (simp add: find_closest_start_word_index_def)

text \<open>
  C3, amended.  For every text and every target index that is not negative: the snap
  never returns an index past the target; when a space occurs after the target index, it
  returns the position of the nearest space at or before the target, and 0 when there is
  none; when the target index is at or beyond the end of the text, it returns the target
  index itself.
\<close>

theorem find_closest_start_word_index_snap:
  "0 \<le> k \<Longrightarrow>
     find_closest_start_word_index s k \<le> k
   \<and> ((\<exists>j<length s. s ! j = CHR '' '' \<and> k < int j) \<longrightarrow>
        snapped s k (find_closest_start_word_index s k))
   \<and> (int (length s) \<le> k \<longrightarrow> find_closest_start_word_index s k = k)"
proof (intro impI conjI)
  assume k: "0 \<le> k"
  show "find_closest_start_word_index s k \<le> k"
    unfolding find_closest_start_word_index_def using fcswi_loop_le[OF k] .
  show "snapped s k (find_closest_start_word_index s k)"
    if "\<exists>j<length s. s ! j = CHR '' '' \<and> k < int j"
    using fcswi_loop_snap[of s k "[]" 0] that snapped_nil
    by (simp add: find_closest_start_word_index_def)
  show "find_closest_start_word_index s k = k" if "int (length s) \<le> k"
    using that by (intro find_closest_start_word_index_at_end) simp
qed

theorem find_closest_start_word_index_snap_witness:
  "(0::int) \<le> 11
   \<and> (\<exists>j<length ''hello world, my name is alex!''.
         ''hello world, my name is alex!'' ! j = CHR '' '' \<and> (11::int) < int j)
   \<and> find_closest_start_word_index ''hello world, my name is alex!'' 11 = 5
   \<and> snapped ''hello world, my name is alex!'' 11 5
   \<and> int (length ''hello world'') \<le> 11
   \<and> find_closest_start_word_index ''hello world'' 11 = 11"
proof -
  have later: "\<exists>j<length ''hello world, my name is alex!''.
                 ''hello world, my name is alex!'' ! j = CHR '' '' \<and> (11::int) < int j"
    by (rule exI[of _ 12]) simp
  have val: "find_closest_start_word_index ''hello world, my name is alex!'' 11 = 5"
    by (simp add: find_closest_start_word_index_def)
  have "snapped ''hello world, my name is alex!'' 11
          (find_closest_start_word_index ''hello world, my name is alex!'' 11)"
    using find_closest_start_word_index_snap[of 11 "''hello world, my name is alex!''"] later
    by simp
  moreover have "find_closest_start_word_index ''hello world'' 11 = 11"
    using find_closest_start_word_index_snap[of 11 "''hello world''"] by simp
  ultimately show ?thesis using later val by simp
qed


subsection \<open>Consuming twice\<close>

lemma single_spaced_last:
  "single_spaced xs \<Longrightarrow> xs \<noteq> [] \<Longrightarrow> \<not> py_isspace (last xs)"
  by (induction xs rule: single_spaced.induct) auto

lemma single_spaced_drop:
  "single_spaced xs \<Longrightarrow> single_spaced (drop n xs)"
proof (induction xs arbitrary: n rule: single_spaced.induct)
  case 1
  then show ?case by simp
next
  case (2 a)
  then show ?case by (cases n) auto
next
  case (3 a b cs)
  then show ?case by (cases n) auto
qed

lemma py_rstrip_id:
  "xs = [] \<or> \<not> py_isspace (last xs) \<Longrightarrow> py_rstrip xs = xs"
  unfolding py_rstrip_def
  by (cases xs rule: rev_cases) auto

text \<open>Stripping a single-spaced text removes one character at most.\<close>

lemma single_spaced_strip_length:
  assumes "single_spaced xs"
  shows "length xs \<le> length (py_strip xs) + 1"
proof -
  have "py_rstrip xs = xs"
    using assms single_spaced_last by (intro py_rstrip_id) auto
  then have s: "py_strip xs = dropWhile py_isspace xs"
    by (simp add: py_strip_def py_lstrip_def)
  show ?thesis
  proof (cases xs)
    case Nil
    then show ?thesis by simp
  next
    case (Cons a ys)
    with assms show ?thesis unfolding s by (cases ys) auto
  qed
qed

text \<open>With the marker unset and the offset at the last character of the pending
  intermediate text or beyond, nothing is returned.\<close>

lemma sentinel_nothing_new:
  assumes "cse_consumed_transcript_id u = NoId"
    and "int (length (text_str (latest_intermediate_transcript u))) - 1
           \<le> cse_consumed_transcript_idx u"
  shows "fst (get_new_cse_transcripts_for_user u) = []"
  using assms
  by (simp add: get_new_cse_transcripts_for_user_def Let_def
        find_closest_start_word_index_at_end)

lemma consume_keeps_transcripts:
  "latest_intermediate_transcript (snd (get_new_cse_transcripts_for_user u))
     = latest_intermediate_transcript u
   \<and> final_transcripts (snd (get_new_cse_transcripts_for_user u)) = final_transcripts u
   \<and> cse_consumed_transcript_id (snd (get_new_cse_transcripts_for_user u)) = NoId"
  by (simp add: get_new_cse_transcripts_for_user_def Let_def split: prod.splits)

lemma marker_new_index:
  assumes "cse_consumed_transcript_id u \<noteq> NoId"
  shows "int (length (text_str (latest_intermediate_transcript u))) - 1
           \<le> cse_consumed_transcript_idx (snd (get_new_cse_transcripts_for_user u))"
  using assms
  by (auto simp: get_new_cse_transcripts_for_user_def Let_def split: prod.splits)

lemma sentinel_new_index:
  assumes "cse_consumed_transcript_id u = NoId"
    and "0 \<le> cse_consumed_transcript_idx u"
    and "fst (get_new_cse_transcripts_for_user u) \<noteq> []"
    and "single_spaced (text_str (latest_intermediate_transcript u))"
  shows "int (length (text_str (latest_intermediate_transcript u))) - 1
           \<le> cse_consumed_transcript_idx (snd (get_new_cse_transcripts_for_user u))"
proof -
  let ?T = "text_str (latest_intermediate_transcript u)"
  let ?start = "find_closest_start_word_index ?T (cse_consumed_transcript_idx u)"
  have gt: "int (length ?T) - 1 > ?start"
    using assms(1,3) by (auto simp: get_new_cse_transcripts_for_user_def Let_def split: if_splits)
  have nn: "0 \<le> ?start" using assms(2) by (rule find_closest_start_word_index_nonneg)
  have sl: "py_slice_from ?start ?T = drop (nat ?start) ?T"
    using nn by (simp add: py_slice_from_def py_slice_bound_def min_def)
  have "length (drop (nat ?start) ?T) \<le> length (py_strip (drop (nat ?start) ?T)) + 1"
    using assms(4) by (intro single_spaced_strip_length single_spaced_drop)
  then have "int (length ?T) - ?start \<le> int (length (py_strip (py_slice_from ?start ?T))) + 1"
    using nn gt sl by simp
  then show ?thesis
    using assms(1) gt by (simp add: get_new_cse_transcripts_for_user_def Let_def)
qed

text \<open>The offset never becomes negative.\<close>

lemma consume_index_nonneg:
  "0 \<le> cse_consumed_transcript_idx u
   \<Longrightarrow> 0 \<le> cse_consumed_transcript_idx (snd (get_new_cse_transcripts_for_user u))"
  by (auto simp: get_new_cse_transcripts_for_user_def Let_def
        find_closest_start_word_index_nonneg split: prod.splits)

text \<open>
  C1, as the claim states it, fails.  \<open>shrunk_user\<close> has consumed an intermediate
  transcript that was then replaced by the shorter "new words".  Of two calls in a row
  with no ingestion between them, the first returns nothing (its guard against a shrunken
  intermediate transcript) and resets the offset to 0, and the second returns
  "new words".
\<close>

theorem consume_twice_after_shrink:
  "fst (get_new_cse_transcripts_for_user shrunk_user) = []
   \<and> map text_str (fst (get_new_cse_transcripts_for_user
                          (snd (get_new_cse_transcripts_for_user shrunk_user))))
       = ['' new words'']
   \<and> fst (get_new_cse_transcripts_for_user_as_string
            (snd (get_new_cse_transcripts_for_user shrunk_user))) = ''new words''"
  by code_simp

text \<open>
  The same reset makes a user whose pending intermediate transcript is unchanged receive
  it again on every other call: the first call returns "hello world", the second nothing,
  the third "hello world" again.
\<close>

lemma consume_thrice_hello:
  "fst (get_new_cse_transcripts_for_user_as_string hello_user) = ''hello world''
   \<and> fst (get_new_cse_transcripts_for_user_as_string
            (snd (get_new_cse_transcripts_for_user hello_user))) = []
   \<and> fst (get_new_cse_transcripts_for_user_as_string
            (snd (get_new_cse_transcripts_for_user
               (snd (get_new_cse_transcripts_for_user hello_user))))) = ''hello world''"
  by code_simp

text \<open>
  A text that ends in a run of spaces is not consumed in one call either: the offset is
  computed from the stripped text, and the second call returns the last word again.
\<close>

lemma consume_twice_trailing_spaces:
  "map text_str (fst (get_new_cse_transcripts_for_user spaces_user)) = ['' a'']
   \<and> map text_str (fst (get_new_cse_transcripts_for_user
                          (snd (get_new_cse_transcripts_for_user spaces_user)))) = [''a '']"
  by code_simp

text \<open>
  C1, amended.  For every user state whose consumed marker is set, and for every user
  state with an unset marker and a non-negative offset in which the first call returns
  text and the pending intermediate text is single-spaced (no two adjacent whitespace
  characters, none at its end): a second call with no ingestion in between returns the
  empty transcript list, and the empty string.
\<close>

theorem consume_twice_empty:
  "cse_consumed_transcript_id u \<noteq> NoId
   \<or> (0 \<le> cse_consumed_transcript_idx u
       \<and> fst (get_new_cse_transcripts_for_user u) \<noteq> []
       \<and> single_spaced (text_str (latest_intermediate_transcript u)))
   \<Longrightarrow> fst (get_new_cse_transcripts_for_user (snd (get_new_cse_transcripts_for_user u))) = []
     \<and> fst (get_new_cse_transcripts_for_user_as_string
              (snd (get_new_cse_transcripts_for_user u))) = []"
proof -
  assume h: "cse_consumed_transcript_id u \<noteq> NoId
   \<or> (0 \<le> cse_consumed_transcript_idx u
       \<and> fst (get_new_cse_transcripts_for_user u) \<noteq> []
       \<and> single_spaced (text_str (latest_intermediate_transcript u)))"
  let ?u' = "snd (get_new_cse_transcripts_for_user u)"
  have "int (length (text_str (latest_intermediate_transcript u))) - 1
           \<le> cse_consumed_transcript_idx ?u'"
    using h marker_new_index sentinel_new_index
    by (cases "cse_consumed_transcript_id u = NoId") auto
  then have e: "fst (get_new_cse_transcripts_for_user ?u') = []"
    using consume_keeps_transcripts[of u] by (intro sentinel_nothing_new) auto
  then show ?thesis
    by (cases "get_new_cse_transcripts_for_user ?u'")
       (simp add: get_new_cse_transcripts_for_user_as_string_def py_strip_def py_lstrip_def
          py_rstrip_def)
qed

theorem consume_twice_empty_witness:
  "cse_consumed_transcript_id fox_final_user \<noteq> NoId
   \<and> map text_str (fst (get_new_cse_transcripts_for_user fox_final_user))
       = ['' the quick brown fox'']
   \<and> fst (get_new_cse_transcripts_for_user
            (snd (get_new_cse_transcripts_for_user fox_final_user))) = []
   \<and> cse_consumed_transcript_id hello_user = NoId
   \<and> 0 \<le> cse_consumed_transcript_idx hello_user
   \<and> fst (get_new_cse_transcripts_for_user hello_user) \<noteq> []
   \<and> single_spaced (text_str (latest_intermediate_transcript hello_user))
   \<and> fst (get_new_cse_transcripts_for_user
            (snd (get_new_cse_transcripts_for_user hello_user))) = []"
proof -
  have m: "cse_consumed_transcript_id fox_final_user \<noteq> NoId" by code_simp
  have f: "map text_str (fst (get_new_cse_transcripts_for_user fox_final_user))
             = ['' the quick brown fox'']" by code_simp
  have h: "cse_consumed_transcript_id hello_user = NoId
           \<and> 0 \<le> cse_consumed_transcript_idx hello_user
           \<and> fst (get_new_cse_transcripts_for_user hello_user) \<noteq> []
           \<and> single_spaced (text_str (latest_intermediate_transcript hello_user))"
    by code_simp
  show ?thesis
    using consume_twice_empty[of fox_final_user] consume_twice_empty[of hello_user] m f h
    by simp
qed

subsection \<open>Backslide\<close>

text \<open>
  What the slice of the backslide keeps: the last four words of a context of four words
  or more, every word of a context of one or two words, and only the last word of a
  context of three words.
\<close>

lemma backslide_slice_bound:
  "py_slice_bound (- (backslide - int n)) n = (if n = 3 then 2 else n - 4)"
proof -
  have "nat (int n - 4) = n - 4" by linarith
  moreover have "n < 4 \<Longrightarrow> n \<noteq> 3 \<Longrightarrow> nat (2 * int n - 4) = 0" by linarith
  ultimately show ?thesis
    by (auto simp: py_slice_bound_def backslide_def min_def max_def)
qed

lemma backslide_words_kept:
  "backslide_words p =
     (let ws = py_split (py_strip p)
      in py_join (drop (if length ws = 3 then 2 else length ws - 4) ws))"
  unfolding backslide_words_def Let_def py_slice_from_def backslide_slice_bound ..

text \<open>
  C2 at two inputs.  \<open>gamma_user\<close> has the final transcript "alpha beta gamma" and the
  new intermediate transcript "delta epsilon": the returned text carries one word of
  the three-word context, not three.  \<open>fox_user\<close> is the user of the claim's example,
  and receives the new text alone, with no word of "the quick brown fox".
\<close>

theorem backslide_three_word_context:
  "fst (get_new_cse_transcripts_for_user_as_string gamma_user) = ''gamma delta epsilon''
   \<and> fst (get_new_cse_transcripts_for_user_as_string fox_user) = ''jumps over the lazy dog''"
  by code_simp


section \<open>Properties of the window generator\<close>

lemma fold_insert_image:
  "fold (\<lambda>i. insert (f i)) js S = S \<union> f ` set js"
  by (induction js arbitrary: S) auto

lemma fold_union:
  "fold (\<lambda>k S. S \<union> g k) ks S = S \<union> (\<Union>k\<in>set ks. g k)"
  by (induction ks arbitrary: S) auto

lemma insert_if_new: "(if c \<notin> S then insert c S else S) = insert c S"
  by auto

lemma find_combinations_image:
  "find_combinations words window_size =
     (\<Union>k\<in>{2..window_size}.
        (\<lambda>i. py_join (take (nat k) (drop (nat i) words))) ` {0 .. int (length words) - k})"
proof -
  have "find_combinations words window_size =
          fold (\<lambda>k S. S \<union> (\<lambda>i. py_join (take (nat k) (drop (nat i) words))) `
                              set [0 .. int (length words) - k])
               [2 .. window_size] {}"
    unfolding find_combinations_def Let_def insert_if_new fold_insert_image ..
  then show ?thesis by (simp add: fold_union)
qed

lemma find_combinations_subset_spec:
  "find_combinations words max_size \<subseteq> windows_spec words max_size"
proof
  fix x assume "x \<in> find_combinations words max_size"
  then obtain k i where k: "2 \<le> k" "k \<le> max_size" and i: "0 \<le> i" "i \<le> int (length words) - k"
    and x: "x = py_join (take (nat k) (drop (nat i) words))"
    unfolding find_combinations_image by auto
  let ?run = "take (nat k) (drop (nat i) words)"
  have "words = take (nat i) words @ ?run @ drop (nat k) (drop (nat i) words)"
    by (simp only: append_take_drop_id)
  moreover have "length ?run = nat k" using k i by (simp add: min_def) linarith
  ultimately show "x \<in> windows_spec words max_size"
    unfolding windows_spec_def using k x by (intro CollectI exI conjI) (assumption | simp)+
qed

lemma windows_spec_subset_find_combinations:
  "windows_spec words max_size \<subseteq> find_combinations words max_size"
proof
  fix x assume "x \<in> windows_spec words max_size"
  then obtain run before after where w: "words = before @ run @ after"
    and l: "2 \<le> length run" "int (length run) \<le> max_size" and x: "x = py_join run"
    unfolding windows_spec_def by blast
  have "take (nat (int (length run))) (drop (nat (int (length before))) words) = run"
    using w by simp
  moreover have "int (length before) \<le> int (length words) - int (length run)"
    using w by simp
  ultimately show "x \<in> find_combinations words max_size"
    unfolding find_combinations_image using l x
    by (intro UN_I[of "int (length run)"] image_eqI[of _ _ "int (length before)"]) auto
qed

lemma find_combinations_abc:
  "find_combinations [''a'', ''b'', ''c''] 3 = {''a b'', ''b c'', ''a b c''}"
  by code_simp

text \<open>
  C4.  For every word sequence and every \<open>max_size\<close>, \<open>find_combinations\<close> returns exactly
  the set of the space-joined contiguous runs of 2 to \<open>max_size\<close> consecutive words; on
  the words a, b, c with \<open>max_size\<close> 3 that is the set of "a b", "b c" and "a b c".
\<close>

theorem find_combinations_windows:
  "find_combinations words max_size = windows_spec words max_size
   \<and> find_combinations [''a'', ''b'', ''c''] 3 = {''a b'', ''b c'', ''a b c''}"
  using find_combinations_subset_spec windows_spec_subset_find_combinations
    find_combinations_abc by blast


section \<open>Properties of the frequency oracle\<close>

text \<open>
  C9, as the claim states it, fails: the lookup is on the lower-cased word.  "The" is not
  in the index below, "the" is on its first line, and the word is not in the output.
\<close>

theorem find_low_freq_words_capitalised:
  "toy_index ''The'' = None \<and> find_low_freq_words toy_index toy_index [''The''] = []"
proof -
  have l: "py_lower ''The'' = ''the''" by code_simp
  show ?thesis
    by (simp add: l toy_index_def Let_def low_freq_constant_google_def
          low_freq_line_constant_norvig_def low_freq_threshold_google_def
          low_freq_threshold_norvig_def google_lines_def norvig_lines_def)
qed

text \<open>
  C9, amended.  \<open>find_low_freq_words\<close> raises on no input, and for every word whose
  lower-cased form is not in the large (google) index, the lower-cased word is in the
  low-frequency output.
\<close>

theorem find_low_freq_words_absent:
  "w \<in> set words \<Longrightarrow> idx_google (py_lower w) = None
   \<Longrightarrow> py_lower w \<in> set (find_low_freq_words idx_google idx_norvig words)"
  by (induction words) (auto simp: Let_def split: option.splits)

theorem find_low_freq_words_absent_witness:
  "''Zyzzyva'' \<in> set [''the'', ''Zyzzyva''] \<and> toy_index (py_lower ''Zyzzyva'') = None
   \<and> py_lower ''Zyzzyva'' = ''zyzzyva''
   \<and> ''zyzzyva'' \<in> set (find_low_freq_words toy_index toy_index [''the'', ''Zyzzyva''])"
proof -
  have a: "''Zyzzyva'' \<in> set [''the'', ''Zyzzyva'']" by simp
  have l: "py_lower ''Zyzzyva'' = ''zyzzyva''" by code_simp
  have b: "toy_index (py_lower ''Zyzzyva'') = None" by code_simp
  have "py_lower ''Zyzzyva'' \<in> set (find_low_freq_words toy_index toy_index [''the'', ''Zyzzyva''])"
    using a b by (rule find_low_freq_words_absent)
  with a b l show ?thesis by (simp only: simp_thms)
qed

section \<open>Properties of the fuzzy matcher\<close>

subsection \<open>The cheap rejects\<close>

text \<open>
  C5, as the claim states it, fails.  Two of the five words of "the big red of house"
  are stop words, a fraction of exactly 0.4; the phrase has 20 characters and a rarity
  of 1.  The search returns no match, though the scan of the titles finds the title.
\<close>

theorem custom_fuzzy_search_rejects_at_threshold:
  "8 \<le> length ''the big red of house''
   \<and> (of_nat (length (filter (\<lambda>word. word \<in> {''the'', ''of''})
                       (py_split ''the big red of house'')))
       / of_nat (length (py_split ''the big red of house'')) :: rat) = 4 / 10
   \<and> \<not> nan_less (get_string_freq unit_freq ''the big red of house'') (4 / 100)
   \<and> custom_fuzzy_search {''the'', ''of''} exact_matcher unit_freq ''the big red of house''
        (enumerate 0 [''The Big Red Of House'']) fuzzy_config = Inr []
   \<and> scan_entities exact_matcher unit_freq fuzzy_config ''the big red of house''
        (enumerate 0 [''The Big Red Of House'']) = Inr [0]"
  by code_simp

text \<open>
  C5, amended.  \<open>custom_fuzzy_search\<close> returns the empty match list, whatever the titles
  and the matcher, when the candidate is shorter than 8 characters, or when the fraction
  of its words that are stop words is 0.4 or more, or when its phrase rarity is below
  0.04.  A candidate of 8 characters or more whose stop-word fraction is below 0.4 and
  whose rarity is not below 0.04 goes on to the scan of the titles.
\<close>

theorem custom_fuzzy_search_cheap_rejects:
  "(length q < 8 \<longrightarrow> custom_fuzzy_search b fnm g q entities cfg = Inr [])
   \<and> (py_split q \<noteq> [] \<and>
        (of_nat (length (filter (\<lambda>word. word \<in> b) (py_split q)))
         / of_nat (length (py_split q)) :: rat) \<ge> 4 / 10
        \<longrightarrow> custom_fuzzy_search b fnm g q entities cfg = Inr [])
   \<and> (nan_less (get_string_freq g q) (4 / 100)
        \<longrightarrow> custom_fuzzy_search b fnm g q entities cfg = Inr [])
   \<and> (8 \<le> length q \<and> py_split q \<noteq> [] \<and>
        (of_nat (length (filter (\<lambda>word. word \<in> b) (py_split q)))
         / of_nat (length (py_split q)) :: rat) < 4 / 10
        \<and> \<not> nan_less (get_string_freq g q) (4 / 100)
        \<longrightarrow> custom_fuzzy_search b fnm g q entities cfg = scan_entities fnm g cfg q entities)"
  by (auto simp: custom_fuzzy_search_def Let_def nan_less_def get_string_freq_def
      split: option.splits if_splits)

theorem custom_fuzzy_search_cheap_rejects_witness:
  "length ''the'' < 8
   \<and> custom_fuzzy_search {''the'', ''of''} exact_matcher unit_freq ''the''
        (enumerate 0 [''The'']) fuzzy_config = Inr []
   \<and> py_split ''the big red of house'' \<noteq> []
   \<and> (of_nat (length (filter (\<lambda>word. word \<in> {''the'', ''of''})
                       (py_split ''the big red of house'')))
       / of_nat (length (py_split ''the big red of house'')) :: rat) \<ge> 4 / 10
   \<and> custom_fuzzy_search {''the'', ''of''} exact_matcher unit_freq ''the big red of house''
        (enumerate 0 [''The Big Red Of House'']) fuzzy_config = Inr []
   \<and> nan_less (get_string_freq common_freq ''fedora tips'') (4 / 100)
   \<and> custom_fuzzy_search {''the'', ''of''} exact_matcher common_freq ''fedora tips''
        (enumerate 0 [''Fedora Tips'']) fuzzy_config = Inr []
   \<and> 8 \<le> length ''the fedora tips''
   \<and> py_split ''the fedora tips'' \<noteq> []
   \<and> (of_nat (length (filter (\<lambda>word. word \<in> {''the'', ''of''}) (py_split ''the fedora tips'')))
       / of_nat (length (py_split ''the fedora tips'')) :: rat) < 4 / 10
   \<and> \<not> nan_less (get_string_freq unit_freq ''the fedora tips'') (4 / 100)
   \<and> custom_fuzzy_search {''the'', ''of''} exact_matcher unit_freq ''the fedora tips''
        (enumerate 0 [''The Fedora Tips'']) fuzzy_config
       = scan_entities exact_matcher unit_freq fuzzy_config ''the fedora tips''
           (enumerate 0 [''The Fedora Tips''])
   \<and> scan_entities exact_matcher unit_freq fuzzy_config ''the fedora tips''
           (enumerate 0 [''The Fedora Tips'']) = Inr [0]"
proof -
  have h1: "length ''the'' < 8" by simp
  have h2: "py_split ''the big red of house'' \<noteq> []
            \<and> (of_nat (length (filter (\<lambda>word. word \<in> {''the'', ''of''})
                       (py_split ''the big red of house'')))
                / of_nat (length (py_split ''the big red of house'')) :: rat) \<ge> 4 / 10"
    by code_simp
  have h3: "nan_less (get_string_freq common_freq ''fedora tips'') (4 / 100)" by code_simp
  have h4: "8 \<le> length ''the fedora tips'' \<and> py_split ''the fedora tips'' \<noteq> []
     \<and> (of_nat (length (filter (\<lambda>word. word \<in> {''the'', ''of''}) (py_split ''the fedora tips'')))
       / of_nat (length (py_split ''the fedora tips'')) :: rat) < 4 / 10
     \<and> \<not> nan_less (get_string_freq unit_freq ''the fedora tips'') (4 / 100)"
    by code_simp
  have s: "scan_entities exact_matcher unit_freq fuzzy_config ''the fedora tips''
           (enumerate 0 [''The Fedora Tips'']) = Inr [0]" by code_simp
  note r = custom_fuzzy_search_cheap_rejects[where b = "{''the'', ''of''}"
               and fnm = exact_matcher and cfg = fuzzy_config]
  have c1: "custom_fuzzy_search {''the'', ''of''} exact_matcher unit_freq ''the''
        (enumerate 0 [''The'']) fuzzy_config = Inr []"
    using h1 by (rule r[THEN conjunct1, rule_format])
  have c2: "custom_fuzzy_search {''the'', ''of''} exact_matcher unit_freq
        ''the big red of house'' (enumerate 0 [''The Big Red Of House'']) fuzzy_config = Inr []"
    using h2 by (rule r[THEN conjunct2, THEN conjunct1, rule_format])
  have c3: "custom_fuzzy_search {''the'', ''of''} exact_matcher common_freq ''fedora tips''
        (enumerate 0 [''Fedora Tips'']) fuzzy_config = Inr []"
    using h3 by (rule r[THEN conjunct2, THEN conjunct2, THEN conjunct1, rule_format])
  have c4: "custom_fuzzy_search {''the'', ''of''} exact_matcher unit_freq ''the fedora tips''
        (enumerate 0 [''The Fedora Tips'']) fuzzy_config
       = scan_entities exact_matcher unit_freq fuzzy_config ''the fedora tips''
           (enumerate 0 [''The Fedora Tips''])"
    using h4 by (rule r[THEN conjunct2, THEN conjunct2, THEN conjunct2, rule_format])
  show ?thesis using h1 c1 h2 c2 h3 c3 h4 c4 s by blast
qed


subsection \<open>The per-match filters\<close>

lemma py_lower_char_not_upper: "\<not> py_isupper (py_lower_char c)"
  by (auto simp: py_lower_char_def py_isupper_def Let_def)

lemma py_lower_no_upper: "filter py_isupper (py_lower s) = []"
  by (induction s) (auto simp: py_lower_def py_lower_char_not_upper)

text \<open>A normalised title has no upper-case letter.\<close>

lemma searched_entity_no_upper: "c \<in> set (searched_entity_of entity) \<Longrightarrow> \<not> py_isupper c"
  using py_lower_no_upper[of "pascal_to_words entity"]
  by (auto simp: searched_entity_of_def remove_colons_def filter_empty_conv)

lemma whole_match_left_chars:
  "whole_match_left s n sub = Inr r \<Longrightarrow> set r \<subseteq> set sub \<union> set s"
proof (induction n arbitrary: sub)
  case 0
  then show ?case by auto
next
  case (Suc n)
  then show ?case
    by (fastforce simp: Let_def split: if_splits)
qed

lemma whole_match_right_chars:
  "set (whole_match_right s e sub) \<subseteq> set sub \<union> set s"
proof (induction s e sub rule: whole_match_right.induct)
  case (1 s e sub)
  show ?case
  proof (cases "e < length s \<and> \<not> is_separator (s ! e)")
    case True
    then have "whole_match_right s e sub = whole_match_right s (Suc e) (sub @ [s ! e])"
      by (subst whole_match_right.simps) simp
    moreover have "set (whole_match_right s (Suc e) (sub @ [s ! e]))
                     \<subseteq> set (sub @ [s ! e]) \<union> set s"
      using 1[of "s ! e"] True by simp
    moreover have "s ! e \<in> set s" using True by simp
    ultimately show ?thesis by auto
  next
    case False
    then have "whole_match_right s e sub = sub"
      by (subst whole_match_right.simps) auto
    then show ?thesis by simp
  qed
qed

text \<open>The whole match is made of characters of the searched text.\<close>

lemma get_whole_match_chars:
  assumes "get_whole_match m s = Inr wm"
  shows "set wm \<subseteq> set s"
proof -
  obtain l where
    l: "whole_match_left s (m_start m) (take (m_end m - m_start m) (drop (m_start m) s)) = Inr l"
    and wm: "wm = whole_match_right s (m_end m) l"
    using assms by (auto simp: get_whole_match_def Let_def split: sum.splits)
  have "set (take (m_end m - m_start m) (drop (m_start m) s)) \<subseteq> set s"
    by (meson set_take_subset set_drop_subset subset_trans)
  with whole_match_left_chars[OF l] have "set l \<subseteq> set s" by auto
  with whole_match_right_chars[of s "m_end m" l] show ?thesis unfolding wm by auto
qed

lemma whole_match_no_capitals:
  assumes "get_whole_match m (searched_entity_of entity) = Inr wm"
  shows "count_capitals wm = 0"
  using get_whole_match_chars[OF assms] searched_entity_no_upper
  by (auto simp: count_capitals_def filter_empty_conv)

lemma passes_anchor:
  "match_passes_filters g q s m = Inr True \<Longrightarrow> at_word_start s m"
  by (auto simp: match_passes_filters_def at_word_start_def Let_def
      split: sum.splits if_splits)

lemma passes_space_or_capitals:
  "match_passes_filters g q s m = Inr True \<Longrightarrow>
     \<exists>wm. get_whole_match m s = Inr wm \<and> (CHR '' '' \<in> set wm \<or> 2 \<le> count_capitals wm)"
  by (auto simp: match_passes_filters_def Let_def split: sum.splits if_splits)

text \<open>Every index in the result comes from a match that passed the filters.\<close>

lemma scan_matches_accepted:
  "scan_matches g q s idx ms = Inr ids \<Longrightarrow> i \<in> set ids \<Longrightarrow>
     i = idx \<and> (\<exists>m\<in>set ms. match_passes_filters g q s m = Inr True)"
proof (induction ms arbitrary: ids)
  case Nil
  then show ?case by simp
next
  case (Cons m ms)
  then show ?case
    by (fastforce split: sum.splits if_splits)
qed

lemma scan_entities_accepted:
  "scan_entities fnm g cfg q entities = Inr ids \<Longrightarrow> i \<in> set ids \<Longrightarrow>
     \<exists>entity m. (i, entity) \<in> set entities
       \<and> m \<in> set (fnm (py_lower q) (searched_entity_of entity)
                     (max_deletions cfg) (max_insertions cfg) (max_substitutions cfg)
                     (max_l_dist cfg))
       \<and> match_passes_filters g q (searched_entity_of entity) m = Inr True"
proof (induction entities arbitrary: ids)
  case Nil
  then show ?case by simp
next
  case (Cons e entities)
  obtain idx entity where e: "e = (idx, entity)" by (cases e)
  from Cons.prems(1) obtain here rest where
    h: "scan_matches g q (searched_entity_of entity) idx
          (fnm (py_lower q) (searched_entity_of entity)
             (max_deletions cfg) (max_insertions cfg) (max_substitutions cfg) (max_l_dist cfg))
        = Inr here"
    and r: "scan_entities fnm g cfg q entities = Inr rest" and ids: "ids = here @ rest"
    unfolding e by (auto simp: Let_def split: sum.splits)
  from Cons.prems(2) ids consider "i \<in> set here" | "i \<in> set rest" by auto
  then show ?case
  proof cases
    case 1
    from scan_matches_accepted[OF h 1] show ?thesis unfolding e by auto
  next
    case 2
    from Cons.IH[OF r 2] show ?thesis by auto
  qed
qed

lemma custom_fuzzy_search_accepted:
  "custom_fuzzy_search b fnm g q entities cfg = Inr ids \<Longrightarrow> i \<in> set ids \<Longrightarrow>
     \<exists>entity m. (i, entity) \<in> set entities
       \<and> m \<in> set (fnm (py_lower q) (searched_entity_of entity)
                     (max_deletions cfg) (max_insertions cfg) (max_substitutions cfg)
                     (max_l_dist cfg))
       \<and> match_passes_filters g q (searched_entity_of entity) m = Inr True"
  using scan_entities_accepted[of fnm g cfg q entities ids i]
  by (auto simp: custom_fuzzy_search_def Let_def split: if_splits)

text \<open>
  C8.  Every match that passes the per-match filters begins at position 0 of the
  normalised title or right after a space in it, and every index that
  \<open>custom_fuzzy_search\<close> returns comes from such a match of its title: a span that
  starts inside a word contributes no index.
\<close>

theorem accepted_match_at_word_start:
  "(match_passes_filters g q s m = Inr True \<longrightarrow> at_word_start s m)
   \<and> (custom_fuzzy_search b fnm g q entities cfg = Inr ids \<and> i \<in> set ids \<longrightarrow>
        (\<exists>entity m. (i, entity) \<in> set entities
           \<and> m \<in> set (fnm (py_lower q) (searched_entity_of entity)
                     (max_deletions cfg) (max_insertions cfg) (max_substitutions cfg)
                     (max_l_dist cfg))
           \<and> at_word_start (searched_entity_of entity) m))"
  using passes_anchor custom_fuzzy_search_accepted[of b fnm g q entities cfg ids i]
  by blast

lemma fedora_tip_search:
  "custom_fuzzy_search {} exact_matcher unit_freq ''fedora tip''
     (enumerate 0 [''Fedora Tips and Tricks'']) fuzzy_config = Inr [0]"
  by code_simp

lemma fedora_tip_match:
  "searched_entity_of ''Fedora Tips and Tricks'' = ''fedora tips and tricks''
   \<and> match_passes_filters unit_freq ''fedora tip'' ''fedora tips and tricks''
        \<lparr>m_start = 0, m_end = 10, m_dist = 0\<rparr> = Inr True
   \<and> match_passes_filters unit_freq ''edora tips'' ''fedora tips and tricks''
        \<lparr>m_start = 1, m_end = 11, m_dist = 0\<rparr> = Inr False
   \<and> custom_fuzzy_search {} exact_matcher unit_freq ''edora tips''
        (enumerate 0 [''Fedora Tips and Tricks'']) fuzzy_config = Inr []"
  by code_simp

theorem accepted_match_at_word_start_witness:
  "match_passes_filters unit_freq ''fedora tip'' ''fedora tips and tricks''
        \<lparr>m_start = 0, m_end = 10, m_dist = 0\<rparr> = Inr True
   \<and> at_word_start ''fedora tips and tricks'' \<lparr>m_start = 0, m_end = 10, m_dist = 0\<rparr>
   \<and> custom_fuzzy_search {} exact_matcher unit_freq ''fedora tip''
        (enumerate 0 [''Fedora Tips and Tricks'']) fuzzy_config = Inr [0]
   \<and> (0::nat) \<in> set [0]
   \<and> (\<exists>entity m. (0, entity) \<in> set (enumerate 0 [''Fedora Tips and Tricks''])
         \<and> m \<in> set (exact_matcher (py_lower ''fedora tip'') (searched_entity_of entity)
                       (max_deletions fuzzy_config) (max_insertions fuzzy_config)
                       (max_substitutions fuzzy_config) (max_l_dist fuzzy_config))
         \<and> at_word_start (searched_entity_of entity) m)"
proof -
  note t = accepted_match_at_word_start[of unit_freq "''fedora tip''"
      "''fedora tips and tricks''" "\<lparr>m_start = 0, m_end = 10, m_dist = 0\<rparr>" "{}"
      exact_matcher "enumerate 0 [''Fedora Tips and Tricks'']" fuzzy_config "[0]" 0]
  have p: "match_passes_filters unit_freq ''fedora tip'' ''fedora tips and tricks''
        \<lparr>m_start = 0, m_end = 10, m_dist = 0\<rparr> = Inr True"
    using fedora_tip_match by blast
  have i: "(0::nat) \<in> set [0]" by simp
  show ?thesis using t p fedora_tip_search i by blast
qed

text \<open>
  C10.  The whole match of a span of a normalised title has no upper-case letter, so
  the capital-count exemption never applies: every match that passes the filters has
  a whole match with a space in it, and so has every match behind an index that
  \<open>custom_fuzzy_search\<close> returns, however the title is capitalised.
\<close>

theorem accepted_match_has_space:
  "(get_whole_match m (searched_entity_of entity) = Inr wm \<longrightarrow> count_capitals wm = 0)
   \<and> (match_passes_filters g q (searched_entity_of entity) m = Inr True \<longrightarrow>
        (\<exists>wm. get_whole_match m (searched_entity_of entity) = Inr wm \<and> CHR '' '' \<in> set wm))
   \<and> (custom_fuzzy_search b fnm g q entities cfg = Inr ids \<and> i \<in> set ids \<longrightarrow>
        (\<exists>title m wm. (i, title) \<in> set entities
           \<and> m \<in> set (fnm (py_lower q) (searched_entity_of title)
                     (max_deletions cfg) (max_insertions cfg) (max_substitutions cfg)
                     (max_l_dist cfg))
           \<and> get_whole_match m (searched_entity_of title) = Inr wm \<and> CHR '' '' \<in> set wm))"
proof (intro conjI impI)
  show "count_capitals wm = 0" if "get_whole_match m (searched_entity_of entity) = Inr wm"
    using that by (rule whole_match_no_capitals)
  show sp: "\<exists>wm. get_whole_match m (searched_entity_of entity) = Inr wm \<and> CHR '' '' \<in> set wm"
    if "match_passes_filters g q (searched_entity_of entity) m = Inr True" for m entity
    using passes_space_or_capitals[OF that] whole_match_no_capitals by fastforce
  show "\<exists>title m wm. (i, title) \<in> set entities
           \<and> m \<in> set (fnm (py_lower q) (searched_entity_of title)
                     (max_deletions cfg) (max_insertions cfg) (max_substitutions cfg)
                     (max_l_dist cfg))
           \<and> get_whole_match m (searched_entity_of title) = Inr wm \<and> CHR '' '' \<in> set wm"
    if "custom_fuzzy_search b fnm g q entities cfg = Inr ids \<and> i \<in> set ids"
    using custom_fuzzy_search_accepted[of b fnm g q entities cfg ids i] that sp by blast
qed

text \<open>The titles "FedoraTips" and "SPECTROSCOPY": the first is split and matches the
  two words said; the second is one word in any capitalisation and never matches.\<close>

lemma pascal_titles:
  "searched_entity_of ''FedoraTips'' = ''fedora tips''
   \<and> get_whole_match \<lparr>m_start = 0, m_end = 11, m_dist = 0\<rparr> (searched_entity_of ''FedoraTips'')
       = Inr ''fedora tips''
   \<and> match_passes_filters unit_freq ''fedora tips'' (searched_entity_of ''FedoraTips'')
        \<lparr>m_start = 0, m_end = 11, m_dist = 0\<rparr> = Inr True
   \<and> custom_fuzzy_search {} exact_matcher unit_freq ''fedora tips''
        (enumerate 0 [''FedoraTips'']) fuzzy_config = Inr [0]
   \<and> searched_entity_of ''SPECTROSCOPY'' = ''spectroscopy''
   \<and> custom_fuzzy_search {} exact_matcher unit_freq ''spectroscopy''
        (enumerate 0 [''SPECTROSCOPY'', ''Spectroscopy'']) fuzzy_config = Inr []"
  by code_simp

theorem accepted_match_has_space_witness:
  "get_whole_match \<lparr>m_start = 0, m_end = 11, m_dist = 0\<rparr> (searched_entity_of ''FedoraTips'')
     = Inr ''fedora tips''
   \<and> count_capitals ''fedora tips'' = 0
   \<and> match_passes_filters unit_freq ''fedora tips'' (searched_entity_of ''FedoraTips'')
        \<lparr>m_start = 0, m_end = 11, m_dist = 0\<rparr> = Inr True
   \<and> CHR '' '' \<in> set ''fedora tips''
   \<and> custom_fuzzy_search {} exact_matcher unit_freq ''fedora tips''
        (enumerate 0 [''FedoraTips'']) fuzzy_config = Inr [0]
   \<and> (0::nat) \<in> set [0]
   \<and> (\<exists>title m wm. (0, title) \<in> set (enumerate 0 [''FedoraTips''])
         \<and> m \<in> set (exact_matcher (py_lower ''fedora tips'') (searched_entity_of title)
                       (max_deletions fuzzy_config) (max_insertions fuzzy_config)
                       (max_substitutions fuzzy_config) (max_l_dist fuzzy_config))
         \<and> get_whole_match m (searched_entity_of title) = Inr wm \<and> CHR '' '' \<in> set wm)"
proof -
  note t = accepted_match_has_space[of "\<lparr>m_start = 0, m_end = 11, m_dist = 0\<rparr>"
      "''FedoraTips''" "''fedora tips''" unit_freq "''fedora tips''" "{}" exact_matcher
      "enumerate 0 [''FedoraTips'']" fuzzy_config "[0]" 0]
  have w: "get_whole_match \<lparr>m_start = 0, m_end = 11, m_dist = 0\<rparr>
             (searched_entity_of ''FedoraTips'') = Inr ''fedora tips''"
    and p: "match_passes_filters unit_freq ''fedora tips'' (searched_entity_of ''FedoraTips'')
        \<lparr>m_start = 0, m_end = 11, m_dist = 0\<rparr> = Inr True"
    and c: "custom_fuzzy_search {} exact_matcher unit_freq ''fedora tips''
        (enumerate 0 [''FedoraTips'']) fuzzy_config = Inr [0]"
    using pascal_titles by blast+
  have i: "(0::nat) \<in> set [0]" and sp: "CHR '' '' \<in> set ''fedora tips''" by simp_all
  show ?thesis using t w p c i sp by blast
qed

subsection \<open>The result cap\<close>

lemma rrfp_length: "length (remove_random_false_positives rnd n d k) \<le> k"
proof (induction rnd n d k rule: remove_random_false_positives.induct)
  case (1 rnd n d k)
  show ?case
    by (subst remove_random_false_positives.simps) (use 1 in auto)
qed

lemma rrfp_small: "length d \<le> k \<Longrightarrow> remove_random_false_positives rnd n d k = d"
  by (subst remove_random_false_positives.simps) simp

lemma rrfp_subset: "set (remove_random_false_positives rnd n d k) \<subseteq> set d"
proof (induction rnd n d k rule: remove_random_false_positives.induct)
  case (1 rnd n d k)
  show ?case
  proof (cases "k < length d")
    case True
    have "set (AList.delete x d) \<subseteq> set d" for x by (auto simp: AList.delete_eq)
    with 1[OF True] show ?thesis
      by (subst remove_random_false_positives.simps) (use True in auto)
  next
    case False
    then show ?thesis by (simp add: rrfp_small)
  qed
qed

lemma delete_absent: "x \<notin> fst ` set d \<Longrightarrow> AList.delete x d = d"
  by (induction d) (auto simp: AList.delete_eq)

lemma delete_present_length:
  assumes "distinct (map fst d)" "x \<in> fst ` set d"
  shows "Suc (length (AList.delete x d)) = length d"
  using assms
proof (induction d)
  case Nil
  then show ?case by simp
next
  case (Cons p d)
  show ?case
  proof (cases "fst p = x")
    case True
    then have "x \<notin> fst ` set d" using Cons.prems(1) by auto
    then have "AList.delete x d = d" by (rule delete_absent)
    with True show ?thesis by (cases p) simp
  next
    case False
    then have "x \<in> fst ` set d" "distinct (map fst d)" using Cons.prems by auto
    from Cons.IH[OF this(2,1)] False show ?thesis by (cases p) auto
  qed
qed

lemma random_choice_member: "xs \<noteq> [] \<Longrightarrow> random_choice r xs \<in> set xs"
  by (simp add: random_choice_def)

text \<open>On a dictionary the cap leaves exactly \<open>k\<close> entries of a larger one.\<close>

lemma rrfp_exact_length:
  "distinct (map fst d) \<Longrightarrow> length (remove_random_false_positives rnd n d k) = min (length d) k"
proof (induction rnd n d k rule: remove_random_false_positives.induct)
  case (1 rnd n d k)
  show ?case
  proof (cases "k < length d")
    case True
    let ?x = "random_choice (rnd n) (map fst d)"
    have "d \<noteq> []" using True by auto
    then have "?x \<in> fst ` set d"
      using random_choice_member[of "map fst d" "rnd n"] by simp
    then have l: "Suc (length (AList.delete ?x d)) = length d"
      using 1(2) by (intro delete_present_length)
    have "distinct (map fst (AList.delete ?x d))" using 1(2) by (rule distinct_delete) 
    from 1(1)[OF True this] l True show ?thesis
      by (subst remove_random_false_positives.simps) (auto simp: min_def)
  next
    case False
    then show ?thesis by (simp add: rrfp_small)
  qed
qed

lemma build_matches_distinct: "distinct (map fst (build_matches df idxs))"
proof -
  have "distinct (map fst acc) \<Longrightarrow>
        distinct (map fst (fold (\<lambda>mi matches.
            AList.update (title (rows df ! mi)) (entity_of_row df mi) matches) idxs acc))" for acc
    by (induction idxs arbitrary: acc) (auto simp: distinct_update)
  then show ?thesis unfolding build_matches_def by simp
qed

text \<open>The function is the cap applied to the dictionary built before it.\<close>

lemma fuzzy_search_cap:
  "fuzzy_search_on_user_custom_data cd b fnm g ord rnd uid talk =
     (case matches_before_cap cd b fnm g ord uid talk of
        Inl e \<Rightarrow> Inl e
      | Inr d \<Rightarrow> Inr (remove_random_false_positives rnd 0 d unreasonable_num))"
  by (auto simp: fuzzy_search_on_user_custom_data_def matches_before_cap_def
        does_user_have_custom_data_loaded_def rrfp_small Let_def
      split: option.splits custom_data_value.splits sum.splits)

lemma matches_before_cap_distinct:
  "matches_before_cap cd b fnm g ord uid talk = Inr d \<Longrightarrow> distinct (map fst d)"
  by (auto simp: matches_before_cap_def build_matches_distinct
      split: option.splits custom_data_value.splits sum.splits if_splits)

text \<open>The user says "blue moon" and all five titles of the catalog match.\<close>

lemma five_moons_before_cap:
  "matches_before_cap (catalog_of five_moons) {} exact_matcher unit_freq moon_order ''u''
     moon_talk = Inr (map title_entity five_moons)"
  by code_simp

lemma two_moons_before_cap:
  "matches_before_cap (catalog_of two_moons) {} exact_matcher unit_freq moon_order ''u''
     moon_talk = Inr (map title_entity two_moons)"
  by code_simp

lemma five_moons_capped:
  "remove_random_false_positives draws_zero 0 (map title_entity five_moons) unreasonable_num
     = map title_entity [''Blue Moon Cafe'', ''Blue Moon Bar'', ''Blue Moon Inn'', ''Blue Moon Pub'']
   \<and> remove_random_false_positives draws_one 0 (map title_entity five_moons) unreasonable_num
     = map title_entity [''Blue Moon'', ''Blue Moon Bar'', ''Blue Moon Inn'', ''Blue Moon Pub'']"
  by code_simp

lemma five_moons_search:
  "fuzzy_search_on_user_custom_data (catalog_of five_moons) {} exact_matcher unit_freq
     moon_order draws_zero ''u'' moon_talk
     = Inr (map title_entity
              [''Blue Moon Cafe'', ''Blue Moon Bar'', ''Blue Moon Inn'', ''Blue Moon Pub''])
   \<and> fuzzy_search_on_user_custom_data (catalog_of five_moons) {} exact_matcher unit_freq
     moon_order draws_one ''u'' moon_talk
     = Inr (map title_entity
              [''Blue Moon'', ''Blue Moon Bar'', ''Blue Moon Inn'', ''Blue Moon Pub''])"
  by (simp only: fuzzy_search_cap five_moons_before_cap five_moons_capped sum.case simp_thms)

lemma moon_entities_differ:
  "map title_entity [''Blue Moon Cafe'', ''Blue Moon Bar'', ''Blue Moon Inn'', ''Blue Moon Pub'']
   \<noteq> map title_entity [''Blue Moon'', ''Blue Moon Bar'', ''Blue Moon Inn'', ''Blue Moon Pub'']"
  by code_simp

text \<open>
  C6, as the claim states it, fails.  With the catalog of five "Blue Moon" titles and
  the text "blue moon", two invocations that differ in their random draws only return
  different dictionaries: one has dropped "Blue Moon", the other "Blue Moon Cafe".
\<close>

theorem fuzzy_search_depends_on_draws:
  "fuzzy_search_on_user_custom_data (catalog_of five_moons) {} exact_matcher unit_freq
     moon_order draws_zero ''u'' moon_talk
   \<noteq> fuzzy_search_on_user_custom_data (catalog_of five_moons) {} exact_matcher unit_freq
     moon_order draws_one ''u'' moon_talk"
  using five_moons_search moon_entities_differ by (simp only: sum.inject simp_thms)

text \<open>
  C6, amended.  For a fixed catalog and text, the dictionary built before the cap does
  not depend on the random source.  When it has at most 4 entries, every invocation
  returns it unchanged; when it has more, every invocation returns 4 of its entries, the
  others removed by random choice.  An error before the cap is the same in every
  invocation.
\<close>

theorem fuzzy_search_deterministic_up_to_cap:
  "case matches_before_cap cd b fnm g ord uid talk of
     Inl e \<Rightarrow> fuzzy_search_on_user_custom_data cd b fnm g ord rnd uid talk = Inl e
   | Inr d \<Rightarrow>
       (length d \<le> 4 \<longrightarrow> fuzzy_search_on_user_custom_data cd b fnm g ord rnd uid talk = Inr d)
       \<and> (\<exists>m. fuzzy_search_on_user_custom_data cd b fnm g ord rnd uid talk = Inr m
              \<and> set m \<subseteq> set d \<and> length m = min (length d) 4)"
proof (cases "matches_before_cap cd b fnm g ord uid talk")
  case (Inl e)
  then show ?thesis by (simp add: fuzzy_search_cap)
next
  case (Inr d)
  have "length (remove_random_false_positives rnd 0 d unreasonable_num) = min (length d) 4"
    using rrfp_exact_length[OF matches_before_cap_distinct[OF Inr]]
    by (simp add: unreasonable_num_def)
  moreover have "set (remove_random_false_positives rnd 0 d unreasonable_num) \<subseteq> set d"
    by (rule rrfp_subset)
  moreover have "length d \<le> 4 \<Longrightarrow> remove_random_false_positives rnd 0 d unreasonable_num = d"
    by (simp add: rrfp_small unreasonable_num_def)
  ultimately show ?thesis using Inr by (simp add: fuzzy_search_cap)
qed

theorem fuzzy_search_deterministic_up_to_cap_witness:
  "matches_before_cap (catalog_of two_moons) {} exact_matcher unit_freq moon_order ''u''
     moon_talk = Inr (map title_entity two_moons)
   \<and> length (map title_entity two_moons) \<le> 4
   \<and> fuzzy_search_on_user_custom_data (catalog_of two_moons) {} exact_matcher unit_freq
        moon_order draws_zero ''u'' moon_talk = Inr (map title_entity two_moons)
   \<and> fuzzy_search_on_user_custom_data (catalog_of two_moons) {} exact_matcher unit_freq
        moon_order draws_one ''u'' moon_talk = Inr (map title_entity two_moons)"
proof -
  note b = two_moons_before_cap
  have l: "length (map title_entity two_moons) \<le> 4" by (simp add: two_moons_def)
  have z: "fuzzy_search_on_user_custom_data (catalog_of two_moons) {} exact_matcher unit_freq
        moon_order draws_zero ''u'' moon_talk = Inr (map title_entity two_moons)"
    using fuzzy_search_deterministic_up_to_cap[where cd = "catalog_of two_moons" and b = "{}"
            and fnm = exact_matcher and g = unit_freq and ord = moon_order and uid = "''u''"
            and talk = moon_talk and rnd = draws_zero] l
    unfolding b by simp
  have o: "fuzzy_search_on_user_custom_data (catalog_of two_moons) {} exact_matcher unit_freq
        moon_order draws_one ''u'' moon_talk = Inr (map title_entity two_moons)"
    using fuzzy_search_deterministic_up_to_cap[where cd = "catalog_of two_moons" and b = "{}"
            and fnm = exact_matcher and g = unit_freq and ord = moon_order and uid = "''u''"
            and talk = moon_talk and rnd = draws_one] l
    unfolding b by simp
  show ?thesis using b l z o by blast
qed

text \<open>
  C7.  The dictionary that \<open>fuzzy_search_on_user_custom_data\<close> returns has at most 4
  entries, for every catalog, user and text.
\<close>

theorem fuzzy_search_at_most_four:
  "fuzzy_search_on_user_custom_data cd b fnm g ord rnd uid talk = Inr m \<Longrightarrow> length m \<le> 4"
  using rrfp_length[of rnd 0 _ unreasonable_num]
  by (auto simp: fuzzy_search_cap unreasonable_num_def split: sum.splits)

theorem fuzzy_search_at_most_four_witness:
  "fuzzy_search_on_user_custom_data (catalog_of five_moons) {} exact_matcher unit_freq
     moon_order draws_zero ''u'' moon_talk
     = Inr (map title_entity
              [''Blue Moon Cafe'', ''Blue Moon Bar'', ''Blue Moon Inn'', ''Blue Moon Pub''])
   \<and> length (map title_entity
              [''Blue Moon Cafe'', ''Blue Moon Bar'', ''Blue Moon Inn'', ''Blue Moon Pub'']) \<le> 4"
proof -
  have e: "fuzzy_search_on_user_custom_data (catalog_of five_moons) {} exact_matcher unit_freq
     moon_order draws_zero ''u'' moon_talk
     = Inr (map title_entity
              [''Blue Moon Cafe'', ''Blue Moon Bar'', ''Blue Moon Inn'', ''Blue Moon Pub''])"
    using five_moons_search by blast
  from fuzzy_search_at_most_four[OF e] e show ?thesis by blast
qed

end
